theory Spec2Isabelle
  imports Main "HOL-Library.Word" "HOL-Library.Sublist"
begin

section \<open>The panel wrapper (tools/panel_wrapper.c)\<close>

text \<open>
  The wrapper is one C program: \<^verbatim>\<open>main\<close> and the four static helpers \<^verbatim>\<open>logmsg\<close>,
  \<^verbatim>\<open>file_owned_by_allowed\<close>, \<^verbatim>\<open>is_valid_url\<close> and \<^verbatim>\<open>is_safe_path\<close>. Everything it
  learns from the operating system (identities, whether the log opens, the clock,
  \<^verbatim>\<open>access\<close>, \<^verbatim>\<open>stat\<close>, \<^verbatim>\<open>getpwnam\<close>, the allocator, \<^verbatim>\<open>execve\<close>) is a field of the
  record \<open>world\<close>; everything it does to the outside is written to the record
  \<open>state\<close>, which every function takes and returns.

  A C string is modelled by the list of its bytes before the terminating NUL, a
  nullable \<^verbatim>\<open>const char *\<close> by a \<open>string option\<close>.
\<close>

subsection \<open>C library functions used by the program\<close>

text \<open>
  \<^verbatim>\<open>strcmp\<close> and \<^verbatim>\<open>strncmp\<close> compare bytes as \<^verbatim>\<open>unsigned char\<close>; the end of the
  list is the terminator, which is smaller than every byte of a string. The C
  standard fixes only the sign of the result, so the model returns -1, 0 or 1.
\<close>

fun strcmp :: "string \<Rightarrow> string \<Rightarrow> int" where
  "strcmp [] [] = 0"
| "strcmp [] (y # ys) = - 1"
| "strcmp (x # xs) [] = 1"
| "strcmp (x # xs) (y # ys) =
     (if x = y then strcmp xs ys
      else if (of_char x :: nat) < of_char y then - 1 else 1)"

fun strncmp :: "string \<Rightarrow> string \<Rightarrow> nat \<Rightarrow> int" where
  "strncmp a b 0 = 0"
| "strncmp [] [] (Suc n) = 0"
| "strncmp [] (y # ys) (Suc n) = - 1"
| "strncmp (x # xs) [] (Suc n) = 1"
| "strncmp (x # xs) (y # ys) (Suc n) =
     (if x = y then strncmp xs ys n
      else if (of_char x :: nat) < of_char y then - 1 else 1)"

definition strlen :: "string \<Rightarrow> nat" where
  "strlen s = length s"

text \<open>\<^verbatim>\<open>p[i]\<close> for \<open>i\<close> up to the length: the byte, or the terminator at the end.\<close>

definition char_at :: "string \<Rightarrow> nat \<Rightarrow> char" where
  "char_at s i = (if i < length s then s ! i else CHR 0x00)"

text \<open>\<^verbatim>\<open>snprintf(e, len, "KEY=%s", arg)\<close>: at most \<open>len - 1\<close> bytes and the terminator.\<close>

definition snprintf_s :: "nat \<Rightarrow> string \<Rightarrow> string \<Rightarrow> string" where
  "snprintf_s len key arg = take (len - 1) (key @ arg)"

text \<open>The conversion \<^verbatim>\<open>%d\<close> of \<^verbatim>\<open>printf\<close>.\<close>

definition digit_char :: "nat \<Rightarrow> char" where
  "digit_char d = char_of (48 + d)"

function show_nat :: "nat \<Rightarrow> string" where
  "show_nat n = (if n < 10 then [digit_char n] else show_nat (n div 10) @ [digit_char (n mod 10)])"
  by pat_completeness auto
termination
  by (relation "measure id") auto

declare show_nat.simps [simp del]

definition show_int :: "int \<Rightarrow> string" where
  "show_int i = (if i < 0 then CHR ''-'' # show_nat (nat (- i)) else show_nat (nat i))"

subsection \<open>Constants of the program\<close>

definition LOGFILE :: string where
  "LOGFILE = ''/var/log/panel/panel-wrapper.log''"

definition AUTODEPLOY :: string where
  "AUTODEPLOY = ''/opt/panel/scripts/autodeploy.sh''"

definition MEMWATCH :: string where
  "MEMWATCH = ''/opt/panel/scripts/memwatch.sh''"

subsection \<open>The operating system and the effects of a run\<close>

type_synonym uid_t = "32 word"

text \<open>
  What the system answers during one run. \<open>fopen_append path n\<close> says whether the
  \<open>n\<close>-th attempt of the run to open \<open>path\<close> for appending succeeds, \<open>strftime_now n\<close> is
  the formatted local time at the \<open>n\<close>-th line written, \<open>access_X_OK path\<close> is \<open>None\<close>
  when \<^verbatim>\<open>access(path, X_OK)\<close> returns 0 and \<open>Some errno\<close> otherwise, \<open>stat_st_uid path\<close>
  is the owner when \<^verbatim>\<open>stat\<close> succeeds, \<open>getpwnam_uid name\<close> the \<^verbatim>\<open>pw_uid\<close> of the entry
  when there is one, \<open>alloc_succeeds n\<close> says whether the \<open>n\<close>-th allocation that
  \<^verbatim>\<open>main\<close> itself requests (\<^verbatim>\<open>malloc\<close> or \<^verbatim>\<open>strdup\<close>, counted from 0) returns memory, and \<open>execve_result\<close> is \<open>None\<close>
  when the process image is replaced and \<open>Some errno\<close> when \<^verbatim>\<open>execve\<close> returns -1.
  \<open>environ\<close> is the environment the caller started the wrapper with.
\<close>

record world =
  getuid :: uid_t
  geteuid :: uid_t
  getgid :: uid_t
  fopen_append :: "string \<Rightarrow> nat \<Rightarrow> bool"
  strftime_now :: "nat \<Rightarrow> string"
  access_X_OK :: "string \<Rightarrow> int option"
  stat_st_uid :: "string \<Rightarrow> uid_t option"
  getpwnam_uid :: "string \<Rightarrow> uid_t option"
  alloc_succeeds :: "nat \<Rightarrow> bool"
  execve_result :: "string \<Rightarrow> string list \<Rightarrow> string list \<Rightarrow> int option"
  environ :: "string list"

text \<open>
  The calls a run makes besides logging, in order. \<open>Execve path args env\<close> is the
  call of \<^verbatim>\<open>execve\<close> with the argument vector and the environment it is given.
\<close>

datatype event =
    Stderr string
  | Perror string
  | Access string
  | Stat string
  | Getpwnam string
  | Malloc nat
  | Strdup string
  | Execve string "string list" "string list"

record state =
  log_opens :: nat
  log_lines :: "string list"
  allocs :: nat
  trace :: "event list"

definition init_state :: state where
  "init_state = \<lparr>log_opens = 0, log_lines = [], allocs = 0, trace = []\<rparr>"

definition emit :: "event \<Rightarrow> state \<Rightarrow> state" where
  "emit ev s = s\<lparr>trace := trace s @ [ev]\<rparr>"

text \<open>
  How a run ends: \<^verbatim>\<open>main\<close> returns a code, \<^verbatim>\<open>execve\<close> replaces the process image, or
  the process dies writing through a null pointer.
\<close>

datatype outcome = Exit int | Replaced | Crashed

subsection \<open>logmsg\<close>

text \<open>
  \<open>msg\<close> is the message after formatting. When the log does not open the function
  returns at once; otherwise one line, the time stamp, a colon and the message, is
  appended and the file is closed.
\<close>

definition logmsg :: "world \<Rightarrow> string \<Rightarrow> state \<Rightarrow> state" where
  "logmsg w msg s =
     (let s' = s\<lparr>log_opens := Suc (log_opens s)\<rparr> in
      if \<not> fopen_append w LOGFILE (log_opens s) then s'
      else s'\<lparr>log_lines := log_lines s @ [strftime_now w (length (log_lines s)) @ '': '' @ msg]\<rparr>)"

subsection \<open>file_owned_by_allowed\<close>

definition file_owned_by_allowed :: "world \<Rightarrow> string \<Rightarrow> state \<Rightarrow> bool \<times> state" where
  "file_owned_by_allowed w path s =
     (let s1 = emit (Stat path) s in
      case stat_st_uid w path of
        None \<Rightarrow> (False, s1)
      | Some st_uid \<Rightarrow>
          let s2 = emit (Getpwnam ''panel'') s1;
              panel_uid = (case getpwnam_uid w ''panel'' of Some pw_uid \<Rightarrow> pw_uid | None \<Rightarrow> - 1)
          in if st_uid = 0 \<or> st_uid = panel_uid then (True, s2) else (False, s2))"

subsection \<open>is_valid_url and is_safe_path\<close>

definition is_valid_url :: "string option \<Rightarrow> bool" where
  "is_valid_url u =
     (case u of
        None \<Rightarrow> False
      | Some s \<Rightarrow>
          if strlen s > 2048 then False
          else if strncmp s ''http://'' 7 = 0 then True
          else if strncmp s ''https://'' 8 = 0 then True
          else False)"

definition is_safe_path :: "string option \<Rightarrow> bool" where
  "is_safe_path p =
     (case p of
        None \<Rightarrow> False
      | Some s \<Rightarrow>
          if strlen s > 4096 then False
          else if char_at s 0 \<noteq> CHR ''/'' then False
          else if strncmp s ''/var/run/'' 9 = 0 then True
          else if strncmp s ''/var/tmp/'' 9 = 0 then True
          else if strncmp s ''/tmp/'' 5 = 0 then True
          else False)"

subsection \<open>main\<close>

text \<open>
  An allocation: the answer of the allocator and the state with the call recorded.
\<close>

definition alloc :: "world \<Rightarrow> event \<Rightarrow> state \<Rightarrow> bool \<times> state" where
  "alloc w ev s = (alloc_succeeds w (allocs s), emit ev (s\<lparr>allocs := Suc (allocs s)\<rparr>))"

definition sizeof_char_ptr :: nat where
  "sizeof_char_ptr = 8"

text \<open>
  The array \<^verbatim>\<open>envp\<close> is a list of pointers, \<open>None\<close> for a null pointer; \<^verbatim>\<open>execve\<close> reads
  the strings before the first null pointer.
\<close>

definition envp_default :: "string option list" where
  "envp_default = [Some ''PATH=/usr/bin:/bin'', Some ''LANG=C'', None]"

fun env_of :: "string option list \<Rightarrow> string list" where
  "env_of [] = []"
| "env_of (None # ps) = []"
| "env_of (Some e # ps) = e # env_of ps"

text \<open>
  Lines 116 to 124 and 130 to 138, which differ in the key only. Only the first
  \<^verbatim>\<open>malloc\<close> is checked. When the second returns a null pointer the store to
  \<^verbatim>\<open>envp[0]\<close> goes through it; a failed \<^verbatim>\<open>strdup\<close> leaves a null pointer in the array.
\<close>

definition build_envp :: "world \<Rightarrow> string \<Rightarrow> string \<Rightarrow> state \<Rightarrow> (outcome + string option list) \<times> state" where
  "build_envp w key arg s =
     (let len = strlen key + strlen arg + 1;
          (e_ok, s1) = alloc w (Malloc len) s
      in if \<not> e_ok then (Inl (Exit 10), s1)
         else
           let e = snprintf_s len key arg;
               (envp_ok, s2) = alloc w (Malloc (sizeof_char_ptr * 4)) s1
           in if \<not> envp_ok then (Inl Crashed, s2)
              else
                let (path_ok, s3) = alloc w (Strdup ''PATH=/usr/bin:/bin'') s2;
                    (lang_ok, s4) = alloc w (Strdup ''LANG=C'') s3
                in (Inr [Some e,
                         if path_ok then Some ''PATH=/usr/bin:/bin'' else None,
                         if lang_ok then Some ''LANG=C'' else None,
                         None], s4))"

text \<open>Lines 111 to 142: the environment for the script.\<close>

definition prepare_env :: "world \<Rightarrow> string \<Rightarrow> string option \<Rightarrow> state \<Rightarrow> (outcome + string option list) \<times> state" where
  "prepare_env w cmd arg s =
     (if strcmp cmd ''autodeploy'' = 0 then
        (case arg of
           Some a \<Rightarrow> build_envp w ''DOWNLOAD_URL='' a s
         | None \<Rightarrow> (Inr envp_default, s))
      else
        (case arg of
           Some a \<Rightarrow> build_envp w ''ET_PID_FILE='' a s
         | None \<Rightarrow> (Inr envp_default, s)))"

text \<open>Lines 144 to 153: the transfer. \<^verbatim>\<open>execve\<close> returns only when it fails.\<close>

definition exec_script :: "world \<Rightarrow> string \<Rightarrow> string option list \<Rightarrow> state \<Rightarrow> outcome \<times> state" where
  "exec_script w script envp s =
     (let exec_args = [script];
          s1 = logmsg w (''executing '' @ script) s;
          s2 = emit (Execve script exec_args (env_of envp)) s1
      in case execve_result w script exec_args (env_of envp) of
           None \<Rightarrow> (Replaced, s2)
         | Some errno \<Rightarrow>
             (Exit 6, emit (Perror ''execve'') (logmsg w (''execve failed: '' @ show_int errno) s2)))"

text \<open>Lines 99 to 153: the checks of the script, the environment and the transfer.\<close>

definition check_and_exec :: "world \<Rightarrow> string \<Rightarrow> string \<Rightarrow> string option \<Rightarrow> state \<Rightarrow> outcome \<times> state" where
  "check_and_exec w cmd script arg s =
     (let s1 = emit (Access script) s in
      case access_X_OK w script of
        Some errno \<Rightarrow>
          (Exit 4, emit (Stderr ''Script not executable'')
             (logmsg w (''script not executable: '' @ script @ '' (errno='' @ show_int errno @ '')'') s1))
      | None \<Rightarrow>
          let (owned, s2) = file_owned_by_allowed w script s1 in
          if \<not> owned then
            (Exit 5, emit (Stderr ''Script ownership invalid'')
               (logmsg w (''script not owned by panel or root: '' @ script) s2))
          else
            let (r, s3) = prepare_env w cmd arg s2 in
            case r of
              Inl out \<Rightarrow> (out, s3)
            | Inr envp \<Rightarrow> exec_script w script envp s3)"

text \<open>
  \<open>argv\<close> is the argument vector and \<open>argc\<close> its length. With no element at all
  \<^verbatim>\<open>argv[0]\<close> is a null pointer, which glibc prints as \<^verbatim>\<open>(null)\<close>. \<^verbatim>\<open>%d\<close> reads the
  identities as signed.
\<close>

definition invoked_msg :: "world \<Rightarrow> string \<Rightarrow> string option \<Rightarrow> string" where
  "invoked_msg w cmd arg =
     ''invoked by uid='' @ show_int (sint (getuid w)) @
     '' euid='' @ show_int (sint (geteuid w)) @
     '' gid='' @ show_int (sint (getgid w)) @
     '' cmd='' @ cmd @
     '' arg='' @ (case arg of Some a \<Rightarrow> a | None \<Rightarrow> ''(none)'')"

definition main :: "world \<Rightarrow> string list \<Rightarrow> outcome \<times> state" where
  "main w argv =
     (let argc = length argv in
      if argc < 2 then
        (Exit 2, emit (Stderr (''Usage: '' @ (case argv of [] \<Rightarrow> ''(null)'' | a # _ \<Rightarrow> a) @
                               '' <autodeploy|memwatch> [arg]'')) init_state)
      else
        let cmd = argv ! 1;
            arg = (if argc \<ge> 3 then Some (argv ! 2) else None);
            s1 = logmsg w (invoked_msg w cmd arg) init_state
        in if strcmp cmd ''autodeploy'' = 0 then
             (case arg of
                Some a \<Rightarrow>
                  if \<not> is_valid_url (Some a) then
                    (Exit 3, emit (Stderr ''Invalid URL'') (logmsg w (''invalid download URL: '' @ a) s1))
                  else check_and_exec w cmd AUTODEPLOY arg s1
              | None \<Rightarrow> check_and_exec w cmd AUTODEPLOY arg s1)
           else if strcmp cmd ''memwatch'' = 0 then
             (case arg of
                Some a \<Rightarrow>
                  if \<not> is_safe_path (Some a) then
                    (Exit 3, emit (Stderr ''Invalid pid file path'') (logmsg w (''invalid pid file path: '' @ a) s1))
                  else check_and_exec w cmd MEMWATCH arg s1
              | None \<Rightarrow> check_and_exec w cmd MEMWATCH arg s1)
           else
             (Exit 2, emit (Stderr ''Unknown command'') (logmsg w (''unknown command: '' @ cmd) s1)))"

subsection \<open>Observations on a run\<close>

text \<open>The calls of \<^verbatim>\<open>execve\<close> in a trace: path, argument vector, environment.\<close>

fun execve_calls :: "event list \<Rightarrow> (string \<times> string list \<times> string list) list" where
  "execve_calls [] = []"
| "execve_calls (Execve p a e # evs) = (p, a, e) # execve_calls evs"
| "execve_calls (_ # evs) = execve_calls evs"

text \<open>
  Events that belong to the checks of the script, to building the environment or to
  the transfer; messages on the error stream do not.
\<close>

fun past_validation :: "event \<Rightarrow> bool" where
  "past_validation (Stderr m) = False"
| "past_validation (Perror m) = False"
| "past_validation _ = True"

definition reaches_script :: "outcome \<times> state \<Rightarrow> bool" where
  "reaches_script r = list_ex past_validation (trace (snd r))"

text \<open>Line 68: the optional argument.\<close>

definition arg_of :: "string list \<Rightarrow> string option" where
  "arg_of argv = (if length argv \<ge> 3 then Some (argv ! 2) else None)"

text \<open>
  The condition under which \<^verbatim>\<open>main\<close> gets past line 97 with \<open>script\<close> as its target:
  the command is one of the two and the argument, when there is one, passes the
  check of that command.
\<close>

definition passes_validation :: "string list \<Rightarrow> string \<Rightarrow> bool" where
  "passes_validation argv script \<longleftrightarrow>
     length argv \<ge> 2 \<and>
     (argv ! 1 = ''autodeploy'' \<and> script = AUTODEPLOY \<and>
        (case arg_of argv of None \<Rightarrow> True | Some a \<Rightarrow> is_valid_url (Some a))
      \<or>
      argv ! 1 = ''memwatch'' \<and> script = MEMWATCH \<and>
        (case arg_of argv of None \<Rightarrow> True | Some a \<Rightarrow> is_safe_path (Some a)))"

text \<open>The effects of a run apart from the lines written to the log.\<close>

definition forget_log :: "state \<Rightarrow> state" where
  "forget_log s = s\<lparr>log_lines := []\<rparr>"

subsection \<open>A concrete system\<close>

text \<open>
  A system in which every call succeeds: the log opens, the scripts are executable
  and owned by root, the account \<^verbatim>\<open>panel\<close> has uid 998, memory is available and
  \<^verbatim>\<open>execve\<close> replaces the process image.
\<close>

definition demo_world :: world where
  "demo_world =
     \<lparr>getuid = 1000, geteuid = 0, getgid = 1000,
      fopen_append = (\<lambda>path n. True),
      strftime_now = (\<lambda>n. ''2024-05-01T12:00:00+0000''),
      access_X_OK = (\<lambda>path. None),
      stat_st_uid = (\<lambda>path. Some 0),
      getpwnam_uid = (\<lambda>name. if name = ''panel'' then Some 998 else None),
      alloc_succeeds = (\<lambda>n. True),
      execve_result = (\<lambda>path args env. None),
      environ = [''LD_PRELOAD=/tmp/x.so'', ''PATH=/tmp'']\<rparr>"

subsection \<open>Variations of the concrete system\<close>

text \<open>The scripts are not executable (\<^verbatim>\<open>EACCES\<close>).\<close>

definition noexec_world :: world where
  "noexec_world = demo_world\<lparr>access_X_OK := (\<lambda>path. Some 13)\<rparr>"



text \<open>There is no account \<^verbatim>\<open>panel\<close> and the scripts belong to uid 4294967295.\<close>

definition no_panel_world :: world where
  "no_panel_world =
     demo_world\<lparr>getpwnam_uid := (\<lambda>name. None), stat_st_uid := (\<lambda>path. Some 4294967295)\<rparr>"

text \<open>The log never opens.\<close>

definition no_log_world :: world where
  "no_log_world = demo_world\<lparr>fopen_append := (\<lambda>path n. False)\<rparr>"

text \<open>The two calls of \<^verbatim>\<open>malloc\<close> succeed and both calls of \<^verbatim>\<open>strdup\<close> fail.\<close>

definition strdup_fail_world :: world where
  "strdup_fail_world = demo_world\<lparr>alloc_succeeds := (\<lambda>n. n < 2)\<rparr>"

section \<open>Properties\<close>

subsection \<open>String comparison\<close>

lemma strcmp_eq_0_iff: "strcmp a b = 0 \<longleftrightarrow> a = b"
  by (induction a b rule: strcmp.induct) auto

lemma strncmp_eq_0_iff: "strncmp a b n = 0 \<longleftrightarrow> take n a = take n b"
  by (induction a b n rule: strncmp.induct) auto

lemma take_eq_prefix: "take (length p) s = p \<longleftrightarrow> prefix p s"
  by (metis append_eq_conv_conj prefix_def)

lemma strncmp_literal: "length p = n \<Longrightarrow> strncmp s p n = 0 \<longleftrightarrow> prefix p s"
  using take_eq_prefix [of p s] by (auto simp: strncmp_eq_0_iff)

lemma is_valid_url_iff:
  "is_valid_url (Some u) \<longleftrightarrow> length u \<le> 2048 \<and> (prefix ''http://'' u \<or> prefix ''https://'' u)"
  by (auto simp: is_valid_url_def strlen_def strncmp_literal)

lemma is_safe_path_iff:
  "is_safe_path (Some p) \<longleftrightarrow>
     length p \<le> 4096 \<and> char_at p 0 = CHR ''/'' \<and>
     (prefix ''/var/run/'' p \<or> prefix ''/var/tmp/'' p \<or> prefix ''/tmp/'' p)"
  by (auto simp: is_safe_path_def strlen_def strncmp_literal)

lemma uid_minus_one: "(- 1 :: uid_t) = 4294967295"
  by simp

subsection \<open>Effects of the parts of main\<close>

lemma execve_calls_append: "execve_calls (xs @ ys) = execve_calls xs @ execve_calls ys"
  by (induction xs rule: execve_calls.induct) auto

lemma set_execve_calls: "(p, a, e) \<in> set (execve_calls evs) \<longleftrightarrow> Execve p a e \<in> set evs"
  by (induction evs rule: execve_calls.induct) auto

lemma trace_logmsg: "trace (logmsg w m s) = trace s"
  by (simp add: logmsg_def Let_def)

lemma allocs_logmsg: "allocs (logmsg w m s) = allocs s"
  by (simp add: logmsg_def Let_def)

lemma trace_emit: "trace (emit ev s) = trace s @ [ev]"
  by (simp add: emit_def)

lemma allocs_emit: "allocs (emit ev s) = allocs s"
  by (simp add: emit_def)

lemma trace_init: "trace init_state = []"
  by (simp add: init_state_def)

lemma log_opens_logmsg: "log_opens (logmsg w m s) = Suc (log_opens s)"
  by (simp add: logmsg_def Let_def)

lemma log_opens_emit: "log_opens (emit ev s) = log_opens s"
  by (simp add: emit_def)

lemmas run_simps = trace_logmsg allocs_logmsg trace_emit allocs_emit trace_init
  execve_calls_append strcmp_eq_0_iff

lemma reaches_script_iff: "reaches_script r \<longleftrightarrow> (\<exists>ev \<in> set (trace (snd r)). past_validation ev)"
  by (simp add: reaches_script_def list_ex_iff)

lemma fst_owned:
  "fst (file_owned_by_allowed w path s) \<longleftrightarrow>
     (\<exists>u. stat_st_uid w path = Some u \<and>
          (u = 0 \<or> u = (case getpwnam_uid w ''panel'' of Some q \<Rightarrow> q | None \<Rightarrow> - 1)))"
  by (auto simp: file_owned_by_allowed_def Let_def split: option.splits)

lemma trace_owned:
  "trace (snd (file_owned_by_allowed w path s)) =
     trace s @ (case stat_st_uid w path of None \<Rightarrow> [Stat path] | Some u \<Rightarrow> [Stat path, Getpwnam ''panel''])"
  by (auto simp: file_owned_by_allowed_def Let_def run_simps split: option.splits)

lemma allocs_owned: "allocs (snd (file_owned_by_allowed w path s)) = allocs s"
  by (simp add: file_owned_by_allowed_def Let_def run_simps split: option.splits)

lemma fst_build_envp:
  "fst (build_envp w key a s) =
     (if \<not> alloc_succeeds w (allocs s) then Inl (Exit 10)
      else if \<not> alloc_succeeds w (Suc (allocs s)) then Inl Crashed
      else Inr [Some (key @ a),
                if alloc_succeeds w (Suc (Suc (allocs s))) then Some ''PATH=/usr/bin:/bin'' else None,
                if alloc_succeeds w (Suc (Suc (Suc (allocs s)))) then Some ''LANG=C'' else None,
                None])"
  by (simp add: build_envp_def alloc_def Let_def run_simps snprintf_s_def strlen_def)

lemma trace_build_envp:
  "trace (snd (build_envp w key a s)) = trace s @
     (if \<not> alloc_succeeds w (allocs s) then [Malloc (length key + length a + 1)]
      else if \<not> alloc_succeeds w (Suc (allocs s)) then [Malloc (length key + length a + 1), Malloc 32]
      else [Malloc (length key + length a + 1), Malloc 32, Strdup ''PATH=/usr/bin:/bin'', Strdup ''LANG=C''])"
  by (simp add: build_envp_def alloc_def Let_def run_simps strlen_def sizeof_char_ptr_def)

lemma execve_calls_build_envp:
  "execve_calls (trace (snd (build_envp w key a s))) = execve_calls (trace s)"
  by (simp add: build_envp_def alloc_def Let_def run_simps split: prod.splits)

lemma execve_calls_prepare_env:
  "execve_calls (trace (snd (prepare_env w cmd arg s))) = execve_calls (trace s)"
  by (simp add: prepare_env_def execve_calls_build_envp split: option.splits)

lemma fst_prepare_env_allocs:
  "allocs s = allocs s' \<Longrightarrow> fst (prepare_env w cmd arg s) = fst (prepare_env w cmd arg s')"
  by (simp add: prepare_env_def fst_build_envp split: option.splits)

lemma fst_prepare_env_not_3: "fst (prepare_env w cmd arg s) \<noteq> Inl (Exit 3)"
  by (simp add: prepare_env_def fst_build_envp split: option.splits)

lemma env_of_prepare_env:
  assumes "fst (prepare_env w cmd arg s) = Inr envp"
  shows "length (env_of envp) \<le> 3 \<and>
         set (env_of envp) \<subseteq>
           {''PATH=/usr/bin:/bin'', ''LANG=C''} \<union>
           (case arg of None \<Rightarrow> {}
            | Some a \<Rightarrow> {(if cmd = ''autodeploy'' then ''DOWNLOAD_URL='' else ''ET_PID_FILE='') @ a})"
  using assms
  by (auto simp: prepare_env_def fst_build_envp envp_default_def strcmp_eq_0_iff
      split: option.splits if_splits)

lemma execve_calls_exec_script:
  "execve_calls (trace (snd (exec_script w script envp s))) =
     execve_calls (trace s) @ [(script, [script], env_of envp)]"
  by (simp add: exec_script_def Let_def run_simps split: option.splits)

lemma fst_exec_script:
  "fst (exec_script w script envp s) =
     (case execve_result w script [script] (env_of envp) of None \<Rightarrow> Replaced | Some er \<Rightarrow> Exit 6)"
  by (simp add: exec_script_def Let_def split: option.splits)

lemma check_and_exec_noexec:
  "access_X_OK w script = Some er \<Longrightarrow>
   check_and_exec w cmd script arg s =
     (Exit 4, emit (Stderr ''Script not executable'')
        (logmsg w (''script not executable: '' @ script @ '' (errno='' @ show_int er @ '')'')
           (emit (Access script) s)))"
  by (simp add: check_and_exec_def Let_def)

lemma check_and_exec_not_owned:
  "access_X_OK w script = None \<Longrightarrow>
   \<not> fst (file_owned_by_allowed w script (emit (Access script) s)) \<Longrightarrow>
   check_and_exec w cmd script arg s =
     (Exit 5, emit (Stderr ''Script ownership invalid'')
        (logmsg w (''script not owned by panel or root: '' @ script)
           (snd (file_owned_by_allowed w script (emit (Access script) s)))))"
  by (simp add: check_and_exec_def Let_def case_prod_beta)

lemma check_and_exec_owned:
  "access_X_OK w script = None \<Longrightarrow>
   fst (file_owned_by_allowed w script (emit (Access script) s)) \<Longrightarrow>
   check_and_exec w cmd script arg s =
     (let s2 = snd (file_owned_by_allowed w script (emit (Access script) s));
          r = prepare_env w cmd arg s2
      in case fst r of
           Inl out \<Rightarrow> (out, snd r)
         | Inr envp \<Rightarrow> exec_script w script envp (snd r))"
  by (simp add: check_and_exec_def Let_def case_prod_beta)

lemma check_and_exec_not_3: "fst (check_and_exec w cmd script arg s) \<noteq> Exit 3"
proof (cases "access_X_OK w script")
  case (Some er)
  then show ?thesis by (simp add: check_and_exec_noexec)
next
  case None
  show ?thesis
  proof (cases "fst (file_owned_by_allowed w script (emit (Access script) s))")
    case False
    with None show ?thesis by (simp add: check_and_exec_not_owned)
  next
    case True
    with None fst_prepare_env_not_3 [of w cmd arg "snd (file_owned_by_allowed w script (emit (Access script) s))"]
    show ?thesis
      by (auto simp: check_and_exec_owned Let_def fst_exec_script split: sum.splits option.splits)
  qed
qed

lemma execve_calls_check_and_exec:
  "execve_calls (trace s) = [] \<Longrightarrow>
   (p, a, e) \<in> set (execve_calls (trace (snd (check_and_exec w cmd script arg s)))) \<Longrightarrow>
   p = script \<and> a = [script] \<and>
   (\<exists>envp s'. fst (prepare_env w cmd arg s') = Inr envp \<and> allocs s' = allocs s \<and> e = env_of envp)"
proof (cases "access_X_OK w script")
  case (Some er)
  assume "execve_calls (trace s) = []"
    and "(p, a, e) \<in> set (execve_calls (trace (snd (check_and_exec w cmd script arg s))))"
  with Some show ?thesis by (simp add: check_and_exec_noexec run_simps)
next
  case None
  assume s: "execve_calls (trace s) = []"
    and m: "(p, a, e) \<in> set (execve_calls (trace (snd (check_and_exec w cmd script arg s))))"
  let ?o = "file_owned_by_allowed w script (emit (Access script) s)"
  show ?thesis
  proof (cases "fst ?o")
    case False
    with None s m show ?thesis
      by (simp add: check_and_exec_not_owned run_simps trace_owned split: option.splits)
  next
    case True
    have al: "allocs (snd ?o) = allocs s"
      by (simp add: file_owned_by_allowed_def Let_def run_simps split: option.splits)
    have ex: "execve_calls (trace (snd ?o)) = []"
      using s by (simp add: trace_owned run_simps split: option.splits)
    show ?thesis
    proof (cases "fst (prepare_env w cmd arg (snd ?o))")
      case (Inl out)
      with None True s m ex show ?thesis
        by (simp add: check_and_exec_owned Let_def execve_calls_prepare_env)
    next
      case (Inr envp)
      with None True s m ex have "p = script \<and> a = [script] \<and> e = env_of envp"
        by (simp add: check_and_exec_owned Let_def execve_calls_exec_script execve_calls_prepare_env)
      with Inr al show ?thesis by blast
    qed
  qed
qed

lemma trace_prefix_check_and_exec:
  "prefix (trace s @ [Access script]) (trace (snd (check_and_exec w cmd script arg s)))"
proof (cases "access_X_OK w script")
  case (Some er)
  then show ?thesis by (simp add: check_and_exec_noexec run_simps)
next
  case None
  let ?o = "file_owned_by_allowed w script (emit (Access script) s)"
  show ?thesis
  proof (cases "fst ?o")
    case False
    with None show ?thesis
      by (simp add: check_and_exec_not_owned run_simps trace_owned split: option.splits)
  next
    case True
    have 1: "prefix (trace s @ [Access script]) (trace (snd ?o))"
      by (simp add: trace_owned run_simps split: option.splits)
    have 2: "prefix (trace (snd ?o)) (trace (snd (prepare_env w cmd arg (snd ?o))))"
      by (simp add: prepare_env_def trace_build_envp split: option.splits)
    have 3: "\<And>envp t. prefix (trace t) (trace (snd (exec_script w script envp t)))"
      by (simp add: exec_script_def Let_def run_simps split: option.splits)
    show ?thesis
    proof (cases "fst (prepare_env w cmd arg (snd ?o))")
      case (Inl out)
      with None True 1 2 show ?thesis
        by (auto simp: check_and_exec_owned Let_def intro: prefix_order.trans)
    next
      case (Inr envp)
      with None True 1 2 3 [of "snd (prepare_env w cmd arg (snd ?o))" envp] show ?thesis
        by (auto simp: check_and_exec_owned Let_def intro: prefix_order.trans)
    qed
  qed
qed

lemma reaches_script_check_and_exec: "reaches_script (check_and_exec w cmd script arg s)"
proof -
  have "Access script \<in> set (trace (snd (check_and_exec w cmd script arg s)))"
    using trace_prefix_check_and_exec [of s script w cmd arg] set_mono_prefix by fastforce
  moreover have "past_validation (Access script)" by simp
  ultimately show ?thesis unfolding reaches_script_iff by blast
qed

subsection \<open>Runs of main\<close>

lemma main_autodeploy_invalid:
  "\<not> is_valid_url (Some u) \<Longrightarrow>
   main w (prog # ''autodeploy'' # u # rest) =
     (Exit 3, emit (Stderr ''Invalid URL'')
        (logmsg w (''invalid download URL: '' @ u)
           (logmsg w (invoked_msg w ''autodeploy'' (Some u)) init_state)))"
  by (simp add: main_def Let_def run_simps)

lemma main_autodeploy_valid:
  "is_valid_url (Some u) \<Longrightarrow>
   main w (prog # ''autodeploy'' # u # rest) =
     check_and_exec w ''autodeploy'' AUTODEPLOY (Some u)
       (logmsg w (invoked_msg w ''autodeploy'' (Some u)) init_state)"
  by (simp add: main_def Let_def run_simps)

lemma main_autodeploy_none:
  "main w [prog, ''autodeploy''] =
     check_and_exec w ''autodeploy'' AUTODEPLOY None
       (logmsg w (invoked_msg w ''autodeploy'' None) init_state)"
  by (simp add: main_def Let_def run_simps)

lemma main_memwatch_invalid:
  "\<not> is_safe_path (Some p) \<Longrightarrow>
   main w (prog # ''memwatch'' # p # rest) =
     (Exit 3, emit (Stderr ''Invalid pid file path'')
        (logmsg w (''invalid pid file path: '' @ p)
           (logmsg w (invoked_msg w ''memwatch'' (Some p)) init_state)))"
  by (simp add: main_def Let_def run_simps)

lemma main_memwatch_valid:
  "is_safe_path (Some p) \<Longrightarrow>
   main w (prog # ''memwatch'' # p # rest) =
     check_and_exec w ''memwatch'' MEMWATCH (Some p)
       (logmsg w (invoked_msg w ''memwatch'' (Some p)) init_state)"
  by (simp add: main_def Let_def run_simps)

lemma main_memwatch_none:
  "main w [prog, ''memwatch''] =
     check_and_exec w ''memwatch'' MEMWATCH None
       (logmsg w (invoked_msg w ''memwatch'' None) init_state)"
  by (simp add: main_def Let_def run_simps)

lemma main_passes:
  "passes_validation argv script \<Longrightarrow>
   main w argv = check_and_exec w (argv ! 1) script (arg_of argv)
                   (logmsg w (invoked_msg w (argv ! 1) (arg_of argv)) init_state)"
  by (auto simp: passes_validation_def arg_of_def main_def Let_def run_simps split: if_splits)

lemma main_rejects:
  "\<not> passes_validation argv AUTODEPLOY \<Longrightarrow> \<not> passes_validation argv MEMWATCH \<Longrightarrow>
   (fst (main w argv) = Exit 2 \<or> fst (main w argv) = Exit 3) \<and> trace (snd (main w argv)) \<noteq> [] \<and>
   \<not> reaches_script (main w argv)"
  by (auto simp: passes_validation_def arg_of_def main_def Let_def run_simps reaches_script_iff split: if_splits)

lemma main_execve_calls:
  assumes "(p, a, e) \<in> set (execve_calls (trace (snd (main w argv))))"
  shows "passes_validation argv p \<and> a = [p] \<and>
         (\<exists>envp s'. fst (prepare_env w (argv ! 1) (arg_of argv) s') = Inr envp \<and> allocs s' = 0 \<and> e = env_of envp)"
proof (cases "passes_validation argv AUTODEPLOY \<or> passes_validation argv MEMWATCH")
  case False
  then have "\<not> reaches_script (main w argv)" by (simp add: main_rejects)
  moreover have "past_validation (Execve p a e)" by simp
  moreover have "Execve p a e \<in> set (trace (snd (main w argv)))"
    using assms by (simp add: set_execve_calls)
  ultimately show ?thesis by (auto simp: reaches_script_iff)
next
  case True
  then obtain script where pv: "passes_validation argv script" by blast
  let ?s = "logmsg w (invoked_msg w (argv ! 1) (arg_of argv)) init_state"
  have "execve_calls (trace ?s) = []" by (simp add: run_simps)
  moreover have "allocs ?s = 0" by (simp add: run_simps init_state_def)
  moreover have "(p, a, e) \<in> set (execve_calls (trace (snd (check_and_exec w (argv ! 1) script (arg_of argv) ?s))))"
    using assms pv by (simp add: main_passes)
  ultimately show ?thesis
    using pv execve_calls_check_and_exec [of ?s p a e w "argv ! 1" script "arg_of argv"] by auto
qed

lemma main_not_executable:
  "passes_validation argv script \<Longrightarrow> access_X_OK w script = Some er \<Longrightarrow>
   fst (main w argv) = Exit 4 \<and> execve_calls (trace (snd (main w argv))) = []"
  by (simp add: main_passes check_and_exec_noexec run_simps)

lemma main_invalid_arg:
  assumes "length argv \<ge> 2"
    and "argv ! 1 = ''autodeploy'' \<and> script = AUTODEPLOY \<or> argv ! 1 = ''memwatch'' \<and> script = MEMWATCH"
    and "\<not> passes_validation argv script"
  shows "fst (main w argv) = Exit 3 \<and> execve_calls (trace (snd (main w argv))) = []"
  using assms
  by (auto simp: passes_validation_def arg_of_def main_def Let_def run_simps AUTODEPLOY_def MEMWATCH_def
      split: if_splits)

lemma main_checked_run:
  assumes pv: "passes_validation argv script"
    and ac: "access_X_OK w script = None"
    and owned: "fst (file_owned_by_allowed w script s0)"
  shows "execve_calls (trace (snd (main w argv))) =
           (case fst (prepare_env w (argv ! 1) (arg_of argv) init_state) of
              Inl out \<Rightarrow> []
            | Inr envp \<Rightarrow> [(script, [script], env_of envp)]) \<and>
         fst (main w argv) =
           (case fst (prepare_env w (argv ! 1) (arg_of argv) init_state) of
              Inl out \<Rightarrow> out
            | Inr envp \<Rightarrow>
                (case execve_result w script [script] (env_of envp) of
                   None \<Rightarrow> Replaced | Some er \<Rightarrow> Exit 6))"
proof -
  let ?s1 = "logmsg w (invoked_msg w (argv ! 1) (arg_of argv)) init_state"
  let ?o = "file_owned_by_allowed w script (emit (Access script) ?s1)"
  let ?r = "prepare_env w (argv ! 1) (arg_of argv) (snd ?o)"
  have eq: "main w argv = check_and_exec w (argv ! 1) script (arg_of argv) ?s1"
    using pv by (rule main_passes)
  have ow: "fst ?o"
    using owned by (simp add: fst_owned)
  have a0: "allocs (snd ?o) = allocs init_state"
    by (simp add: allocs_owned run_simps)
  have tr: "execve_calls (trace (snd ?o)) = []"
    by (simp add: trace_owned run_simps split: option.splits)
  have same: "fst ?r = fst (prepare_env w (argv ! 1) (arg_of argv) init_state)"
    using a0 by (rule fst_prepare_env_allocs)
  have ce: "check_and_exec w (argv ! 1) script (arg_of argv) ?s1 =
      (case fst ?r of Inl out \<Rightarrow> (out, snd ?r) | Inr envp \<Rightarrow> exec_script w script envp (snd ?r))"
    using ac ow by (simp add: check_and_exec_owned Let_def del: One_nat_def)
  show ?thesis
    unfolding eq ce same [symmetric] using tr
    by (simp add: execve_calls_exec_script execve_calls_prepare_env fst_exec_script split: sum.splits)
qed

subsection \<open>The environment of the script\<close>

text \<open>
  When the checks pass and the allocations for the environment succeed, \<^verbatim>\<open>execve\<close> is
  called once, with the script as its only argument and the environment made of
  the entry for the argument, if there is one, followed by the two fixed entries.
\<close>

lemma main_valid_run:
  assumes pv: "passes_validation argv script"
    and ac: "access_X_OK w script = None"
    and st: "stat_st_uid w script = Some st_uid"
    and ow: "st_uid = 0 \<or> getpwnam_uid w ''panel'' = Some st_uid"
    and al: "arg_of argv \<noteq> None \<longrightarrow> (\<forall>n<4. alloc_succeeds w n)"
  shows "execve_calls (trace (snd (main w argv))) =
           [(script, [script],
             case arg_of argv of
               None \<Rightarrow> [''PATH=/usr/bin:/bin'', ''LANG=C'']
             | Some a \<Rightarrow> [(if argv ! 1 = ''autodeploy'' then ''DOWNLOAD_URL='' else ''ET_PID_FILE='') @ a,
                          ''PATH=/usr/bin:/bin'', ''LANG=C''])]"
proof -
  let ?s1 = "logmsg w (invoked_msg w (argv ! 1) (arg_of argv)) init_state"
  let ?o = "file_owned_by_allowed w script (emit (Access script) ?s1)"
  let ?r = "prepare_env w (argv ! 1) (arg_of argv) (snd ?o)"
  let ?env = "case arg_of argv of
               None \<Rightarrow> [''PATH=/usr/bin:/bin'', ''LANG=C'']
             | Some a \<Rightarrow> [(if argv ! 1 = ''autodeploy'' then ''DOWNLOAD_URL='' else ''ET_PID_FILE='') @ a,
                          ''PATH=/usr/bin:/bin'', ''LANG=C'']"
  have eq: "main w argv = check_and_exec w (argv ! 1) script (arg_of argv) ?s1"
    using pv by (rule main_passes)
  have owned: "fst ?o"
    using st ow by (auto simp: fst_owned)
  have a0: "allocs (snd ?o) = 0"
    by (simp add: allocs_owned run_simps init_state_def)
  have tr: "execve_calls (trace (snd ?o)) = []"
    by (simp add: trace_owned run_simps split: option.splits)
  have four: "arg_of argv \<noteq> None \<Longrightarrow>
      alloc_succeeds w 0 \<and> alloc_succeeds w (Suc 0) \<and> alloc_succeeds w (Suc (Suc 0)) \<and>
      alloc_succeeds w (Suc (Suc (Suc 0)))"
    using al by simp
  have "\<exists>envp. fst ?r = Inr envp \<and> env_of envp = ?env"
    using four a0
    by (cases "arg_of argv")
       (auto simp: prepare_env_def fst_build_envp envp_default_def strcmp_eq_0_iff)
  then obtain envp where r: "fst ?r = Inr envp" and e: "env_of envp = ?env" by blast
  have "check_and_exec w (argv ! 1) script (arg_of argv) ?s1 = exec_script w script envp (snd ?r)"
    using ac owned r by (simp add: check_and_exec_owned Let_def)
  then show ?thesis
    unfolding eq using e tr
    by (simp add: execve_calls_exec_script execve_calls_prepare_env)
qed

text \<open>The environment the caller started the wrapper with is never read.\<close>

lemma logmsg_environ: "logmsg (w\<lparr>environ := ev\<rparr>) = logmsg w"
  by (simp add: logmsg_def fun_eq_iff Let_def)

lemma owned_environ: "file_owned_by_allowed (w\<lparr>environ := ev\<rparr>) = file_owned_by_allowed w"
  by (simp add: file_owned_by_allowed_def fun_eq_iff Let_def cong: option.case_cong)

lemma build_envp_environ: "build_envp (w\<lparr>environ := ev\<rparr>) = build_envp w"
  by (simp add: build_envp_def alloc_def fun_eq_iff Let_def)

lemma prepare_env_environ: "prepare_env (w\<lparr>environ := ev\<rparr>) = prepare_env w"
  by (simp add: prepare_env_def build_envp_environ fun_eq_iff cong: option.case_cong)

lemma exec_script_environ: "exec_script (w\<lparr>environ := ev\<rparr>) = exec_script w"
  by (simp add: exec_script_def logmsg_environ fun_eq_iff Let_def cong: option.case_cong)

lemma check_and_exec_environ: "check_and_exec (w\<lparr>environ := ev\<rparr>) = check_and_exec w"
  by (simp add: check_and_exec_def logmsg_environ owned_environ prepare_env_environ
      exec_script_environ fun_eq_iff Let_def case_prod_beta
      cong: option.case_cong if_cong sum.case_cong)

lemma main_environ: "main (w\<lparr>environ := ev\<rparr>) argv = main w argv"
proof -
  have "invoked_msg (w\<lparr>environ := ev\<rparr>) = invoked_msg w"
    by (simp add: invoked_msg_def fun_eq_iff)
  then show ?thesis
    by (simp add: main_def logmsg_environ check_and_exec_environ Let_def cong: option.case_cong if_cong)
qed

subsection \<open>Runs that differ in whether the log opens\<close>

lemma forget_log_eq_iff:
  "forget_log s = forget_log s' \<longleftrightarrow>
     log_opens s = log_opens s' \<and> allocs s = allocs s' \<and> trace s = trace s'"
  by (cases s; cases s') (simp add: forget_log_def)

lemmas forget_simps = forget_log_eq_iff log_opens_logmsg log_opens_emit
  trace_logmsg allocs_logmsg trace_emit allocs_emit

lemma owned_forget:
  "forget_log s = forget_log s' \<Longrightarrow>
   fst (file_owned_by_allowed (w\<lparr>fopen_append := f\<rparr>) path s) = fst (file_owned_by_allowed w path s') \<and>
   forget_log (snd (file_owned_by_allowed (w\<lparr>fopen_append := f\<rparr>) path s)) =
     forget_log (snd (file_owned_by_allowed w path s'))"
  by (simp add: forget_simps file_owned_by_allowed_def Let_def split: option.splits)

lemma build_envp_forget:
  "forget_log s = forget_log s' \<Longrightarrow>
   fst (build_envp (w\<lparr>fopen_append := f\<rparr>) key a s) = fst (build_envp w key a s') \<and>
   forget_log (snd (build_envp (w\<lparr>fopen_append := f\<rparr>) key a s)) =
     forget_log (snd (build_envp w key a s'))"
  by (simp add: forget_log_eq_iff build_envp_def alloc_def Let_def emit_def)

lemma prepare_env_forget:
  "forget_log s = forget_log s' \<Longrightarrow>
   fst (prepare_env (w\<lparr>fopen_append := f\<rparr>) cmd arg s) = fst (prepare_env w cmd arg s') \<and>
   forget_log (snd (prepare_env (w\<lparr>fopen_append := f\<rparr>) cmd arg s)) =
     forget_log (snd (prepare_env w cmd arg s'))"
  using build_envp_forget [where s=s and s'=s' and w=w and f=f]
  by (simp add: prepare_env_def split: option.splits)

lemma exec_script_forget:
  "forget_log s = forget_log s' \<Longrightarrow>
   fst (exec_script (w\<lparr>fopen_append := f\<rparr>) script envp s) = fst (exec_script w script envp s') \<and>
   forget_log (snd (exec_script (w\<lparr>fopen_append := f\<rparr>) script envp s)) =
     forget_log (snd (exec_script w script envp s'))"
  by (simp add: exec_script_def Let_def forget_simps split: option.splits)

lemma check_and_exec_forget:
  assumes "forget_log s = forget_log s'"
  shows "fst (check_and_exec (w\<lparr>fopen_append := f\<rparr>) cmd script arg s) = fst (check_and_exec w cmd script arg s') \<and>
   forget_log (snd (check_and_exec (w\<lparr>fopen_append := f\<rparr>) cmd script arg s)) =
     forget_log (snd (check_and_exec w cmd script arg s'))"
proof -
  let ?w = "w\<lparr>fopen_append := f\<rparr>"
  have a: "forget_log (emit (Access script) s) = forget_log (emit (Access script) s')"
    using assms by (simp add: forget_simps)
  note o = owned_forget [OF a, where w=w and f=f and path=script]
  note p = prepare_env_forget [OF conjunct2 [OF o], where w=w and f=f and cmd=cmd and arg=arg]
  show ?thesis
  proof (cases "access_X_OK w script")
    case (Some er)
    then have "access_X_OK ?w script = Some er" by simp
    with Some a show ?thesis
      by (simp add: check_and_exec_noexec forget_simps)
  next
    case None
    then have n: "access_X_OK ?w script = None" by simp
    show ?thesis
    proof (cases "fst (file_owned_by_allowed w script (emit (Access script) s'))")
      case False
      with o have "\<not> fst (file_owned_by_allowed ?w script (emit (Access script) s))" by simp
      with None n False o show ?thesis
        by (simp add: check_and_exec_not_owned forget_simps)
    next
      case True
      with o have t: "fst (file_owned_by_allowed ?w script (emit (Access script) s))" by simp
      show ?thesis
      proof (cases "fst (prepare_env w cmd arg (snd (file_owned_by_allowed w script (emit (Access script) s'))))")
        case (Inl out)
        with None n True t p show ?thesis
          by (simp add: check_and_exec_owned Let_def)
      next
        case (Inr envp)
        with None n True t p exec_script_forget [OF conjunct2 [OF p], where w=w and f=f and script=script and envp=envp] show ?thesis
          by (simp add: check_and_exec_owned Let_def)
      qed
    qed
  qed
qed

lemma main_forget:
  "fst (main (w\<lparr>fopen_append := f\<rparr>) argv) = fst (main w argv) \<and>
   forget_log (snd (main (w\<lparr>fopen_append := f\<rparr>) argv)) = forget_log (snd (main w argv))"
proof -
  let ?w = "w\<lparr>fopen_append := f\<rparr>"
  have im: "invoked_msg ?w = invoked_msg w"
    by (simp add: invoked_msg_def fun_eq_iff)
  have i: "\<And>m. forget_log (logmsg ?w m init_state) = forget_log (logmsg w m init_state)"
    by (simp add: forget_simps)
  have c: "\<And>m cmd script arg.
      fst (check_and_exec ?w cmd script arg (logmsg ?w m init_state)) =
      fst (check_and_exec w cmd script arg (logmsg w m init_state)) \<and>
      forget_log (snd (check_and_exec ?w cmd script arg (logmsg ?w m init_state))) =
      forget_log (snd (check_and_exec w cmd script arg (logmsg w m init_state)))"
    using check_and_exec_forget [OF i] by blast
  show ?thesis
    by (simp add: main_def Let_def im c split: option.splits) (simp add: forget_simps)
qed

subsection \<open>Runs on the concrete system\<close>

lemmas demo_defs = demo_world_def passes_validation_def arg_of_def AUTODEPLOY_def MEMWATCH_def
  is_valid_url_iff is_safe_path_iff char_at_def fst_owned prepare_env_def fst_build_envp
  envp_default_def strcmp_eq_0_iff

lemma demo_memwatch_none:
  "execve_calls (trace (snd (main demo_world [''panel_wrapper'', ''memwatch'']))) =
     [(''/opt/panel/scripts/memwatch.sh'', [''/opt/panel/scripts/memwatch.sh''],
       [''PATH=/usr/bin:/bin'', ''LANG=C''])]"
  using main_checked_run [of "[''panel_wrapper'', ''memwatch'']" MEMWATCH demo_world init_state]
  by (simp add: demo_defs)

lemma demo_memwatch_arg:
  "execve_calls (trace (snd (main demo_world [''panel_wrapper'', ''memwatch'', ''/tmp/x'']))) =
     [(''/opt/panel/scripts/memwatch.sh'', [''/opt/panel/scripts/memwatch.sh''],
       [''ET_PID_FILE=/tmp/x'', ''PATH=/usr/bin:/bin'', ''LANG=C''])]"
  using main_checked_run [of "[''panel_wrapper'', ''memwatch'', ''/tmp/x'']" MEMWATCH demo_world init_state]
  by (simp add: demo_defs init_state_def)

section \<open>The claims\<close>

text \<open>
  Claim C1. Whatever the system and the arguments, a path handed to \<^verbatim>\<open>execve\<close> is
  \<^verbatim>\<open>/opt/panel/scripts/autodeploy.sh\<close> when the command is \<^verbatim>\<open>autodeploy\<close> and
  \<^verbatim>\<open>/opt/panel/scripts/memwatch.sh\<close> when it is \<^verbatim>\<open>memwatch\<close>, and nothing else: two runs
  with the same command, on any two systems and with any arguments, hand the same
  path to \<^verbatim>\<open>execve\<close>.
\<close>

theorem execve_path_fixed:
  assumes "(p, a, e) \<in> set (execve_calls (trace (snd (main w argv))))"
  shows "length argv \<ge> 2 \<and>
         (argv ! 1 = ''autodeploy'' \<and> p = ''/opt/panel/scripts/autodeploy.sh'' \<or>
          argv ! 1 = ''memwatch'' \<and> p = ''/opt/panel/scripts/memwatch.sh'') \<and>
         ((p', a', e') \<in> set (execve_calls (trace (snd (main w' argv')))) \<and> argv' ! 1 = argv ! 1
            \<longrightarrow> p' = p)"
proof -
  have sel: "\<And>w argv p a e. (p, a, e) \<in> set (execve_calls (trace (snd (main w argv)))) \<Longrightarrow>
        length argv \<ge> 2 \<and>
         (argv ! 1 = ''autodeploy'' \<and> p = ''/opt/panel/scripts/autodeploy.sh'' \<or>
          argv ! 1 = ''memwatch'' \<and> p = ''/opt/panel/scripts/memwatch.sh'')"
    using main_execve_calls by (fastforce simp: passes_validation_def AUTODEPLOY_def MEMWATCH_def)
  show ?thesis
    using sel [OF assms] sel [of p' a' e' w' argv'] by auto
qed

theorem execve_path_fixed_witness:
  "(''/opt/panel/scripts/memwatch.sh'', [''/opt/panel/scripts/memwatch.sh''],
      [''PATH=/usr/bin:/bin'', ''LANG=C''])
     \<in> set (execve_calls (trace (snd (main demo_world [''panel_wrapper'', ''memwatch''])))) \<and>
   (''/opt/panel/scripts/memwatch.sh'', [''/opt/panel/scripts/memwatch.sh''],
      [''ET_PID_FILE=/tmp/x'', ''PATH=/usr/bin:/bin'', ''LANG=C''])
     \<in> set (execve_calls (trace (snd (main demo_world [''panel_wrapper'', ''memwatch'', ''/tmp/x''])))) \<and>
   [''panel_wrapper'', ''memwatch'', ''/tmp/x''] ! 1 = [''panel_wrapper'', ''memwatch''] ! 1"
  using execve_path_fixed [of "''/opt/panel/scripts/memwatch.sh''" "[''/opt/panel/scripts/memwatch.sh'']"
      "[''PATH=/usr/bin:/bin'', ''LANG=C'']" demo_world "[''panel_wrapper'', ''memwatch'']"
      "''/opt/panel/scripts/memwatch.sh''" "[''/opt/panel/scripts/memwatch.sh'']"
      "[''ET_PID_FILE=/tmp/x'', ''PATH=/usr/bin:/bin'', ''LANG=C'']" demo_world
      "[''panel_wrapper'', ''memwatch'', ''/tmp/x'']"]
  by (simp add: demo_memwatch_none demo_memwatch_arg)

text \<open>
  Claim C2. The environment of a run that passes every check is built from three
  allocations that are not checked. On the system \<open>strdup_fail_world\<close> the invocation
  \<^verbatim>\<open>autodeploy https://example.com/a.tgz\<close> passes validation, the script is executable
  and owned by root, and \<^verbatim>\<open>execve\<close> is called with the environment
  \<^verbatim>\<open>DOWNLOAD_URL=https://example.com/a.tgz\<close> alone: the entries \<^verbatim>\<open>PATH\<close> and \<^verbatim>\<open>LANG\<close> are
  missing.
\<close>

theorem environment_after_strdup_failure:
  "passes_validation [''panel_wrapper'', ''autodeploy'', ''https://example.com/a.tgz'']
     ''/opt/panel/scripts/autodeploy.sh'' \<and>
   access_X_OK strdup_fail_world ''/opt/panel/scripts/autodeploy.sh'' = None \<and>
   stat_st_uid strdup_fail_world ''/opt/panel/scripts/autodeploy.sh'' = Some 0 \<and>
   fst (main strdup_fail_world [''panel_wrapper'', ''autodeploy'', ''https://example.com/a.tgz'']) = Replaced \<and>
   execve_calls (trace (snd
      (main strdup_fail_world [''panel_wrapper'', ''autodeploy'', ''https://example.com/a.tgz'']))) =
     [(''/opt/panel/scripts/autodeploy.sh'', [''/opt/panel/scripts/autodeploy.sh''],
       [''DOWNLOAD_URL=https://example.com/a.tgz''])]"
  using main_checked_run [of "[''panel_wrapper'', ''autodeploy'', ''https://example.com/a.tgz'']"
      AUTODEPLOY strdup_fail_world init_state]
  by (simp add: strdup_fail_world_def demo_defs init_state_def)

text \<open>
  Claim C3. For \<^verbatim>\<open>autodeploy\<close> a present argument passes \<^verbatim>\<open>is_valid_url\<close> exactly when
  it has at most 2048 bytes and starts with \<^verbatim>\<open>http://\<close> or \<^verbatim>\<open>https://\<close>, compared byte
  by byte. An argument that fails ends the run with exit code 3 before any check of
  the script and before the environment is built; a passing argument and an absent
  argument do not end the run with code 3 and the run goes on to the script checks.
\<close>

theorem autodeploy_url_grammar:
  "(is_valid_url (Some u) \<longleftrightarrow>
      length u \<le> 2048 \<and> (prefix ''http://'' u \<or> prefix ''https://'' u)) \<and>
   (\<not> is_valid_url (Some u) \<longrightarrow>
      fst (main w (prog # ''autodeploy'' # u # rest)) = Exit 3 \<and>
      \<not> reaches_script (main w (prog # ''autodeploy'' # u # rest))) \<and>
   (is_valid_url (Some u) \<longrightarrow>
      fst (main w (prog # ''autodeploy'' # u # rest)) \<noteq> Exit 3 \<and>
      reaches_script (main w (prog # ''autodeploy'' # u # rest))) \<and>
   fst (main w [prog, ''autodeploy'']) \<noteq> Exit 3 \<and>
   reaches_script (main w [prog, ''autodeploy''])"
proof -
  have "\<not> is_valid_url (Some u) \<Longrightarrow> \<not> reaches_script (main w (prog # ''autodeploy'' # u # rest))"
    by (simp add: main_autodeploy_invalid reaches_script_iff run_simps)
  then show ?thesis
    by (simp add: is_valid_url_iff main_autodeploy_invalid main_autodeploy_valid main_autodeploy_none
        check_and_exec_not_3 reaches_script_check_and_exec)
qed

theorem autodeploy_url_grammar_witness:
  "\<not> is_valid_url (Some ''ftp://x'') \<and>
   fst (main demo_world [''panel_wrapper'', ''autodeploy'', ''ftp://x'']) = Exit 3 \<and>
   \<not> reaches_script (main demo_world [''panel_wrapper'', ''autodeploy'', ''ftp://x'']) \<and>
   \<not> is_valid_url (Some ''HTTP://example.com/a.tgz'') \<and>
   \<not> is_valid_url (Some (''http://'' @ replicate 2042 CHR ''a'')) \<and>
   is_valid_url (Some (''http://'' @ replicate 2041 CHR ''a'')) \<and>
   is_valid_url (Some ''https://example.com/a.tgz'') \<and>
   fst (main demo_world [''panel_wrapper'', ''autodeploy'', ''https://example.com/a.tgz'']) \<noteq> Exit 3 \<and>
   reaches_script (main demo_world [''panel_wrapper'', ''autodeploy'', ''https://example.com/a.tgz''])"
  using autodeploy_url_grammar [of "''ftp://x''" demo_world "''panel_wrapper''" "[]"]
    autodeploy_url_grammar [of "''HTTP://example.com/a.tgz''" demo_world "''panel_wrapper''" "[]"]
    autodeploy_url_grammar [of "''http://'' @ replicate 2042 CHR ''a''" demo_world "''panel_wrapper''" "[]"]
    autodeploy_url_grammar [of "''http://'' @ replicate 2041 CHR ''a''" demo_world "''panel_wrapper''" "[]"]
    autodeploy_url_grammar [of "''https://example.com/a.tgz''" demo_world "''panel_wrapper''" "[]"]
  by simp

text \<open>
  Claim C4. For \<^verbatim>\<open>memwatch\<close> a present argument passes \<^verbatim>\<open>is_safe_path\<close> exactly when it
  has at most 4096 bytes, its first byte is a slash and it starts with
  \<^verbatim>\<open>/var/run/\<close>, \<^verbatim>\<open>/var/tmp/\<close> or \<^verbatim>\<open>/tmp/\<close>. Only the prefix is compared: a path with
  \<^verbatim>\<open>..\<close> segments under an allowed prefix passes. An argument that fails ends the
  run with exit code 3 and \<^verbatim>\<open>execve\<close> is not called; a passing argument and an absent
  argument do not end the run with code 3 and the run goes on to the script checks.
\<close>

theorem memwatch_path_grammar:
  "(is_safe_path (Some p) \<longleftrightarrow>
      length p \<le> 4096 \<and> char_at p 0 = CHR ''/'' \<and>
      (prefix ''/var/run/'' p \<or> prefix ''/var/tmp/'' p \<or> prefix ''/tmp/'' p)) \<and>
   is_safe_path (Some ''/tmp/../etc/passwd'') \<and>
   (\<not> is_safe_path (Some p) \<longrightarrow>
      fst (main w (prog # ''memwatch'' # p # rest)) = Exit 3 \<and>
      \<not> reaches_script (main w (prog # ''memwatch'' # p # rest)) \<and>
      execve_calls (trace (snd (main w (prog # ''memwatch'' # p # rest)))) = []) \<and>
   (is_safe_path (Some p) \<longrightarrow>
      fst (main w (prog # ''memwatch'' # p # rest)) \<noteq> Exit 3 \<and>
      reaches_script (main w (prog # ''memwatch'' # p # rest))) \<and>
   fst (main w [prog, ''memwatch'']) \<noteq> Exit 3 \<and>
   reaches_script (main w [prog, ''memwatch''])"
proof -
  have dots: "is_safe_path (Some ''/tmp/../etc/passwd'')"
    by (simp add: is_safe_path_iff char_at_def)
  have bad: "\<not> is_safe_path (Some p) \<Longrightarrow>
      fst (main w (prog # ''memwatch'' # p # rest)) = Exit 3 \<and>
      \<not> reaches_script (main w (prog # ''memwatch'' # p # rest)) \<and>
      execve_calls (trace (snd (main w (prog # ''memwatch'' # p # rest)))) = []"
    by (simp add: main_memwatch_invalid reaches_script_iff run_simps)
  have good: "is_safe_path (Some p) \<Longrightarrow>
      fst (main w (prog # ''memwatch'' # p # rest)) \<noteq> Exit 3 \<and>
      reaches_script (main w (prog # ''memwatch'' # p # rest))"
    by (simp add: main_memwatch_valid check_and_exec_not_3 reaches_script_check_and_exec)
  have none: "fst (main w [prog, ''memwatch'']) \<noteq> Exit 3 \<and>
      reaches_script (main w [prog, ''memwatch''])"
    by (simp add: main_memwatch_none check_and_exec_not_3 reaches_script_check_and_exec)
  from dots bad good none show ?thesis
    by (simp add: is_safe_path_iff)
qed

theorem memwatch_path_grammar_witness:
  "\<not> is_safe_path (Some ''/etc/passwd'') \<and>
   fst (main demo_world [''panel_wrapper'', ''memwatch'', ''/etc/passwd'']) = Exit 3 \<and>
   \<not> reaches_script (main demo_world [''panel_wrapper'', ''memwatch'', ''/etc/passwd'']) \<and>
   execve_calls (trace (snd (main demo_world [''panel_wrapper'', ''memwatch'', ''/etc/passwd'']))) = [] \<and>
   \<not> is_safe_path (Some ''tmp/x'') \<and>
   \<not> is_safe_path (Some ''/tmp'') \<and>
   \<not> is_safe_path (Some (''/tmp/'' @ replicate 4092 CHR ''a'')) \<and>
   is_safe_path (Some (''/tmp/'' @ replicate 4091 CHR ''a'')) \<and>
   is_safe_path (Some ''/var/run/et.pid'') \<and>
   fst (main demo_world [''panel_wrapper'', ''memwatch'', ''/var/run/et.pid'']) \<noteq> Exit 3 \<and>
   reaches_script (main demo_world [''panel_wrapper'', ''memwatch'', ''/var/run/et.pid'']) \<and>
   fst (main demo_world [''panel_wrapper'', ''memwatch'']) \<noteq> Exit 3 \<and>
   reaches_script (main demo_world [''panel_wrapper'', ''memwatch''])"
  using memwatch_path_grammar [of "''/etc/passwd''" demo_world "''panel_wrapper''" "[]"]
    memwatch_path_grammar [of "''tmp/x''" demo_world "''panel_wrapper''" "[]"]
    memwatch_path_grammar [of "''/tmp''" demo_world "''panel_wrapper''" "[]"]
    memwatch_path_grammar [of "''/tmp/'' @ replicate 4092 CHR ''a''" demo_world "''panel_wrapper''" "[]"]
    memwatch_path_grammar [of "''/tmp/'' @ replicate 4091 CHR ''a''" demo_world "''panel_wrapper''" "[]"]
    memwatch_path_grammar [of "''/var/run/et.pid''" demo_world "''panel_wrapper''" "[]"]
  by (simp add: char_at_def)



text \<open>
  Claim C6. When the command is missing or is neither \<^verbatim>\<open>autodeploy\<close> nor \<^verbatim>\<open>memwatch\<close>,
  the run ends with exit code 2; no check of a script, no allocation for the
  environment and no call of \<^verbatim>\<open>execve\<close> takes place.
\<close>

theorem unknown_command_usage_error:
  assumes "length argv < 2 \<or> (argv ! 1 \<noteq> ''autodeploy'' \<and> argv ! 1 \<noteq> ''memwatch'')"
  shows "fst (main w argv) = Exit 2 \<and> \<not> reaches_script (main w argv) \<and>
         execve_calls (trace (snd (main w argv))) = []"
  using assms
  by (auto simp: main_def Let_def run_simps reaches_script_iff)

theorem unknown_command_usage_error_witness:
  "[''panel_wrapper'', ''reboot'', ''now''] ! 1 \<noteq> ''autodeploy'' \<and>
   [''panel_wrapper'', ''reboot'', ''now''] ! 1 \<noteq> ''memwatch'' \<and>
   length [''panel_wrapper''] < 2 \<and>
   fst (main demo_world [''panel_wrapper'', ''reboot'', ''now'']) = Exit 2 \<and>
   \<not> reaches_script (main demo_world [''panel_wrapper'', ''reboot'', ''now'']) \<and>
   fst (main demo_world [''panel_wrapper'']) = Exit 2 \<and>
   \<not> reaches_script (main demo_world [''panel_wrapper''])"
  using unknown_command_usage_error [of "[''panel_wrapper'', ''reboot'', ''now'']" demo_world]
    unknown_command_usage_error [of "[''panel_wrapper'']" demo_world]
  by simp

text \<open>
  Claim C7, as amended. The argument is validated before the script is looked at.
  For a recognised command whose script is not executable, the run ends with exit
  code 4 when the argument is absent or passes the check of the command, and with
  exit code 3 when the argument fails that check; \<^verbatim>\<open>execve\<close> is not called.
\<close>

theorem script_not_executable:
  assumes "length argv \<ge> 2"
    and "argv ! 1 = ''autodeploy'' \<and> script = AUTODEPLOY \<or> argv ! 1 = ''memwatch'' \<and> script = MEMWATCH"
    and "access_X_OK w script = Some errno"
  shows "fst (main w argv) = (if passes_validation argv script then Exit 4 else Exit 3) \<and>
         execve_calls (trace (snd (main w argv))) = []"
  using assms main_not_executable [of argv script w errno] main_invalid_arg [of argv script w]
  by simp

theorem script_not_executable_witness:
  "access_X_OK noexec_world MEMWATCH = Some 13 \<and>
   passes_validation [''panel_wrapper'', ''memwatch'', ''/var/run/et.pid''] MEMWATCH \<and>
   fst (main noexec_world [''panel_wrapper'', ''memwatch'', ''/var/run/et.pid'']) = Exit 4 \<and>
   execve_calls (trace (snd (main noexec_world [''panel_wrapper'', ''memwatch'', ''/var/run/et.pid'']))) = []"
  using script_not_executable [of "[''panel_wrapper'', ''memwatch'', ''/var/run/et.pid'']" MEMWATCH noexec_world 13]
  by (simp add: noexec_world_def demo_world_def passes_validation_def arg_of_def is_safe_path_iff char_at_def)

text \<open>
  The claim as stated fails: with a script that is not executable, the invalid
  argument \<^verbatim>\<open>ftp://x\<close> of \<^verbatim>\<open>autodeploy\<close> ends the run with exit code 3, not 4.
\<close>

theorem script_not_executable_counterexample:
  "access_X_OK noexec_world AUTODEPLOY = Some 13 \<and>
   fst (main noexec_world [''panel_wrapper'', ''autodeploy'', ''ftp://x'']) = Exit 3 \<and>
   fst (main noexec_world [''panel_wrapper'', ''autodeploy'', ''ftp://x'']) \<noteq> Exit 4"
  by (simp add: noexec_world_def demo_world_def main_autodeploy_invalid is_valid_url_iff)

text \<open>
  Claim C8. \<^verbatim>\<open>logmsg\<close> returns nothing and, when the log does not open, changes
  nothing but the count of attempts. Two runs on systems that differ only in
  whether the log opens end the same way and make the same calls in the same
  order, with the same paths, argument vectors and environments; they differ at
  most in the lines written to the log. (What \<^verbatim>\<open>perror\<close> prints after a failed
  \<^verbatim>\<open>execve\<close> depends on \<^verbatim>\<open>errno\<close> at that moment and is not part of the model.)
\<close>

theorem log_failure_not_escalated:
  "fst (main (w\<lparr>fopen_append := f\<rparr>) argv) = fst (main w argv) \<and>
   trace (snd (main (w\<lparr>fopen_append := f\<rparr>) argv)) = trace (snd (main w argv)) \<and>
   allocs (snd (main (w\<lparr>fopen_append := f\<rparr>) argv)) = allocs (snd (main w argv)) \<and>
   log_opens (snd (main (w\<lparr>fopen_append := f\<rparr>) argv)) = log_opens (snd (main w argv)) \<and>
   (\<not> fopen_append w LOGFILE (log_opens s) \<longrightarrow>
      logmsg w msg s = s\<lparr>log_opens := Suc (log_opens s)\<rparr>)"
  using main_forget [where w=w and f=f and argv=argv]
  by (simp add: forget_log_eq_iff logmsg_def Let_def)

theorem log_failure_not_escalated_witness:
  "\<not> fopen_append no_log_world LOGFILE (log_opens init_state) \<and>
   logmsg no_log_world ''executing'' init_state = init_state\<lparr>log_opens := Suc (log_opens init_state)\<rparr> \<and>
   fst (main no_log_world [''panel_wrapper'', ''memwatch'', ''/tmp/x'']) =
     fst (main demo_world [''panel_wrapper'', ''memwatch'', ''/tmp/x'']) \<and>
   trace (snd (main no_log_world [''panel_wrapper'', ''memwatch'', ''/tmp/x''])) =
     trace (snd (main demo_world [''panel_wrapper'', ''memwatch'', ''/tmp/x'']))"
  using log_failure_not_escalated [where w=demo_world and f="\<lambda>path n. False"
      and argv="[''panel_wrapper'', ''memwatch'', ''/tmp/x'']"]
    log_failure_not_escalated [where w=no_log_world and s=init_state and msg="''executing''"]
  by (simp add: no_log_world_def demo_world_def)

text \<open>
  Claim C9. When the account database has no entry \<^verbatim>\<open>panel\<close>, the check does not
  fail as such: the uid \<^verbatim>\<open>(uid_t)-1\<close>, that is 4294967295, stands for the account, and
  a path is accepted exactly when \<^verbatim>\<open>stat\<close> succeeds and the owner is 0 or that value.
  A run whose script is accepted this way does not end with exit code 5.
\<close>

theorem ownership_lookup_failure:
  assumes "getpwnam_uid w ''panel'' = None"
  shows "(fst (file_owned_by_allowed w path s) \<longleftrightarrow>
            (\<exists>st_uid. stat_st_uid w path = Some st_uid \<and> (st_uid = 0 \<or> st_uid = 0xFFFFFFFF))) \<and>
         (- 1 :: uid_t) = 0xFFFFFFFF \<and>
         (passes_validation argv path \<and> access_X_OK w path = None \<and>
          fst (file_owned_by_allowed w path s) \<longrightarrow>
            fst (main w argv) \<noteq> Exit 5 \<and> reaches_script (main w argv))"
proof (intro conjI impI)
  show "fst (file_owned_by_allowed w path s) \<longleftrightarrow>
          (\<exists>st_uid. stat_st_uid w path = Some st_uid \<and> (st_uid = 0 \<or> st_uid = 0xFFFFFFFF))"
    using assms by (simp add: fst_owned uid_minus_one)
next
  show "(- 1 :: uid_t) = 0xFFFFFFFF" by (rule uid_minus_one)
next
  assume h: "passes_validation argv path \<and> access_X_OK w path = None \<and>
             fst (file_owned_by_allowed w path s)"
  let ?s = "emit (Access path) (logmsg w (invoked_msg w (argv ! 1) (arg_of argv)) init_state)"
  from h have ow: "fst (file_owned_by_allowed w path ?s)"
    by (simp add: fst_owned)
  from h have eq: "main w argv = check_and_exec w (argv ! 1) path (arg_of argv)
                     (logmsg w (invoked_msg w (argv ! 1) (arg_of argv)) init_state)"
    using main_passes [of argv path w] by simp
  have "fst (prepare_env w (argv ! 1) (arg_of argv) (snd (file_owned_by_allowed w path ?s))) \<noteq> Inl (Exit 5)"
    by (simp add: prepare_env_def fst_build_envp split: option.splits)
  then show "fst (main w argv) \<noteq> Exit 5"
    using h ow unfolding eq
    by (auto simp: check_and_exec_owned Let_def fst_exec_script split: sum.splits option.splits)
  show "reaches_script (main w argv)"
    unfolding eq by (rule reaches_script_check_and_exec)
qed

theorem ownership_lookup_failure_witness:
  "getpwnam_uid no_panel_world ''panel'' = None \<and>
   stat_st_uid no_panel_world MEMWATCH = Some 0xFFFFFFFF \<and>
   fst (file_owned_by_allowed no_panel_world MEMWATCH init_state) \<and>
   passes_validation [''panel_wrapper'', ''memwatch''] MEMWATCH \<and>
   access_X_OK no_panel_world MEMWATCH = None \<and>
   fst (main no_panel_world [''panel_wrapper'', ''memwatch'']) \<noteq> Exit 5"
  using ownership_lookup_failure [of no_panel_world MEMWATCH init_state "[''panel_wrapper'', ''memwatch'']"]
  by (simp add: no_panel_world_def demo_world_def passes_validation_def arg_of_def)

text \<open>
  Claim C10. Two argument vectors with at least three elements that agree on the
  command and on the argument give the same run on the same system: the same end,
  the same calls with the same paths, argument vectors and environments, and the
  same lines in the log. Elements from the fourth on are never read.
\<close>

theorem extra_arguments_ignored:
  assumes "length argv \<ge> 3" and "length argv' \<ge> 3"
    and "argv ! 1 = argv' ! 1" and "argv ! 2 = argv' ! 2"
  shows "main w argv = main w argv'"
  using assms by (simp add: main_def Let_def)

theorem extra_arguments_ignored_witness:
  "length [''panel_wrapper'', ''memwatch'', ''/tmp/x'', ''--force'', ''y''] \<ge> 3 \<and>
   length [''panel_wrapper'', ''memwatch'', ''/tmp/x''] \<ge> 3 \<and>
   main demo_world [''panel_wrapper'', ''memwatch'', ''/tmp/x'', ''--force'', ''y''] =
   main demo_world [''panel_wrapper'', ''memwatch'', ''/tmp/x'']"
  using extra_arguments_ignored [of "[''panel_wrapper'', ''memwatch'', ''/tmp/x'', ''--force'', ''y'']"
      "[''panel_wrapper'', ''memwatch'', ''/tmp/x'']" demo_world]
  by simp

end
